theory Spec2Isabelle
  imports Main
begin

section \<open>JavaScript values used by the card generator\<close>

text \<open>
  The engine in \<^verbatim>\<open>src/src/lib/cardGenerator.js\<close> works on JavaScript strings and
  numbers. A string is modelled as a \<^typ>\<open>string\<close>, one \<^typ>\<open>char\<close> per code unit, which
  covers the code units below 256 (every digit, wildcard, separator and ASCII white-space
  character is among them). A number is an \<^typ>\<open>int option\<close> where \<^term>\<open>None\<close> is
  \<^verbatim>\<open>NaN\<close>: every number the engine computes is an integer or \<^verbatim>\<open>NaN\<close>.
\<close>

type_synonym number = "int option"

definition is_digit :: "char \<Rightarrow> bool" where
  "is_digit c = (48 \<le> (of_char c :: nat) \<and> (of_char c :: nat) \<le> 57)"

definition digit_val :: "char \<Rightarrow> int" where
  "digit_val c = int (of_char c) - 48"

definition digit_char :: "int \<Rightarrow> char" where
  "digit_char d = char_of (48 + nat d)"

text \<open>White space as \<^verbatim>\<open>\s\<close> and \<^verbatim>\<open>parseInt\<close> see it: tab, line feed, vertical tab, form
  feed, carriage return, space and no-break space.\<close>

definition is_space :: "char \<Rightarrow> bool" where
  "is_space c = ((of_char c :: nat) \<in> {9, 10, 11, 12, 13, 32, 160})"

subsection \<open>Number arithmetic with NaN\<close>

definition num_add :: "number \<Rightarrow> number \<Rightarrow> number" where
  "num_add a b = (case (a, b) of (Some x, Some y) \<Rightarrow> Some (x + y) | _ \<Rightarrow> None)"

definition num_sub :: "number \<Rightarrow> number \<Rightarrow> number" where
  "num_sub a b = (case (a, b) of (Some x, Some y) \<Rightarrow> Some (x - y) | _ \<Rightarrow> None)"

definition num_mul :: "number \<Rightarrow> number \<Rightarrow> number" where
  "num_mul a b = (case (a, b) of (Some x, Some y) \<Rightarrow> Some (x * y) | _ \<Rightarrow> None)"

text \<open>The remainder operator \<^verbatim>\<open>%\<close> takes the sign of the dividend; a zero divisor
  gives \<^verbatim>\<open>NaN\<close>.\<close>

definition num_rem :: "number \<Rightarrow> number \<Rightarrow> number" where
  "num_rem a b =
     (case (a, b) of
        (Some x, Some y) \<Rightarrow>
          if y = 0 then None
          else Some (if 0 \<le> x then x mod \<bar>y\<bar> else - ((- x) mod \<bar>y\<bar>))
      | _ \<Rightarrow> None)"

text \<open>Comparisons with \<^verbatim>\<open>NaN\<close> are false.\<close>

definition num_lt :: "number \<Rightarrow> number \<Rightarrow> bool" where
  "num_lt a b = (case (a, b) of (Some x, Some y) \<Rightarrow> x < y | _ \<Rightarrow> False)"

definition num_le :: "number \<Rightarrow> number \<Rightarrow> bool" where
  "num_le a b = (case (a, b) of (Some x, Some y) \<Rightarrow> x \<le> y | _ \<Rightarrow> False)"

definition num_gt :: "number \<Rightarrow> number \<Rightarrow> bool" where
  "num_gt a b = num_lt b a"

definition num_ge :: "number \<Rightarrow> number \<Rightarrow> bool" where
  "num_ge a b = num_le b a"

definition isNaN :: "number \<Rightarrow> bool" where
  "isNaN a = (a = None)"

subsection \<open>Number to string\<close>

fun nat_toString :: "nat \<Rightarrow> string" where
  "nat_toString n =
     (if n < 10 then [digit_char (int n)]
      else nat_toString (n div 10) @ [digit_char (int (n mod 10))])"

declare nat_toString.simps [simp del]

definition int_toString :: "int \<Rightarrow> string" where
  "int_toString i =
     (if i < 0 then CHR ''-'' # nat_toString (nat (- i)) else nat_toString (nat i))"

definition num_toString :: "number \<Rightarrow> string" where
  "num_toString a = (case a of None \<Rightarrow> ''NaN'' | Some i \<Rightarrow> int_toString i)"

subsection \<open>String operations\<close>

text \<open>\<^verbatim>\<open>s.padEnd(n, c)\<close> and \<^verbatim>\<open>s.padStart(n, c)\<close> with a one-character filler.\<close>

definition padEnd :: "string \<Rightarrow> nat \<Rightarrow> char \<Rightarrow> string" where
  "padEnd s n c = s @ replicate (n - length s) c"

definition padStart :: "string \<Rightarrow> nat \<Rightarrow> char \<Rightarrow> string" where
  "padStart s n c = replicate (n - length s) c @ s"

text \<open>\<^verbatim>\<open>s.substring(a, b)\<close> with non-negative arguments: both are clamped to the length
  and swapped when out of order.\<close>

definition substring :: "string \<Rightarrow> nat \<Rightarrow> nat \<Rightarrow> string" where
  "substring s a b =
     (let a' = min a (length s); b' = min b (length s);
          lo = min a' b'; hi = max a' b'
      in take (hi - lo) (drop lo s))"

text \<open>\<^verbatim>\<open>s.slice(-2)\<close>: the last two code units, or all of a shorter string.\<close>

definition slice_last2 :: "string \<Rightarrow> string" where
  "slice_last2 s = drop (length s - 2) s"

definition startsWith :: "string \<Rightarrow> string \<Rightarrow> bool" where
  "startsWith s p = (take (length p) s = p)"

subsection \<open>parseInt without a radix\<close>

text \<open>
  \<^verbatim>\<open>parseInt(s)\<close> skips leading white space, reads an optional sign, switches to radix
  16 after a \<^verbatim>\<open>0x\<close> or \<^verbatim>\<open>0X\<close> prefix, and reads the longest run of digits of the radix;
  with no digit the result is \<^verbatim>\<open>NaN\<close>. The model returns the exact integer. The engine
  prints or adds the result only for strings of at most six code units, where the
  double is exact; for longer strings it only compares the result with 1 and 12, and
  rounding to a double does not change such a comparison.
\<close>

definition radix_digit :: "nat \<Rightarrow> char \<Rightarrow> int option" where
  "radix_digit radix c =
     (let n = (of_char c :: nat) in
      if 48 \<le> n \<and> n \<le> 57 then Some (int n - 48)
      else if radix = 16 \<and> 97 \<le> n \<and> n \<le> 102 then Some (int n - 87)
      else if radix = 16 \<and> 65 \<le> n \<and> n \<le> 70 then Some (int n - 55)
      else None)"

definition parseInt :: "string \<Rightarrow> number" where
  "parseInt s =
     (let t = dropWhile is_space s;
          neg = (take 1 t = ''-'');
          t = (if take 1 t = ''-'' \<or> take 1 t = ''+'' then drop 1 t else t);
          hex = (take 2 t = ''0x'' \<or> take 2 t = ''0X'');
          radix = (if hex then 16 else 10);
          t = (if hex then drop 2 t else t);
          ds = takeWhile (\<lambda>c. radix_digit radix c \<noteq> None) t;
          v = foldl (\<lambda>a c. a * int radix + the (radix_digit radix c)) 0 ds
      in if ds = [] then None else Some (if neg then - v else v))"

section \<open>Checksum engine\<close>

text \<open>
  \<^verbatim>\<open>luhnCheck\<close> (lines 2 to 22). The digits are what is left of the argument after
  \<^verbatim>\<open>replace(/\D/g, "")\<close>. The loop runs from the last index down to 0, so it is a
  recursion over the reversed list; it carries \<^verbatim>\<open>isEven\<close> and \<^verbatim>\<open>sum\<close> (here \<open>acc\<close>).
\<close>

fun luhn_loop :: "int list \<Rightarrow> bool \<Rightarrow> int \<Rightarrow> int" where
  "luhn_loop [] isEven acc = acc"
| "luhn_loop (d # ds) isEven acc =
     (let digit = (if isEven then (if d * 2 > 9 then d * 2 - 9 else d * 2) else d)
      in luhn_loop ds (\<not> isEven) (acc + digit))"

definition luhnCheck :: "string \<Rightarrow> bool" where
  "luhnCheck cardNumber =
     (let digits = map digit_val (filter is_digit cardNumber)
      in luhn_loop (rev digits) False 0 mod 10 = 0)"

text \<open>
  \<^verbatim>\<open>generateValidCardNumber\<close> (lines 25 to 49). \<^verbatim>\<open>parseInt(cardNumber[i])\<close> is
  \<^verbatim>\<open>NaN\<close> on a code unit that is not a digit, and \<^verbatim>\<open>NaN\<close> then spreads through the sum
  to the check digit, which is appended as the text \<^verbatim>\<open>NaN\<close>.
\<close>

fun check_loop :: "string \<Rightarrow> bool \<Rightarrow> number \<Rightarrow> number" where
  "check_loop [] isEven acc = acc"
| "check_loop (c # cs) isEven acc =
     (let digit = parseInt [c];
          digit = (if isEven
                   then (let d2 = num_mul digit (Some 2)
                         in if num_gt d2 (Some 9) then num_sub d2 (Some 9) else d2)
                   else digit)
      in check_loop cs (\<not> isEven) (num_add acc digit))"

definition generateValidCardNumber :: "string \<Rightarrow> string" where
  "generateValidCardNumber baseNumber =
     (let cardNumber = substring (padEnd baseNumber 15 CHR ''0'') 0 15;
          acc = check_loop (rev cardNumber) True (Some 0);
          checkDigit = num_rem (num_sub (Some 10) (num_rem acc (Some 10))) (Some 10)
      in cardNumber @ num_toString checkDigit)"

section \<open>The random source and the clock\<close>

text \<open>
  The engine reads two ambient sources: \<^verbatim>\<open>Math.random()\<close> and \<^verbatim>\<open>new Date()\<close>. They
  are made explicit as an environment that every function takes and returns. The
  random source is a sequence of draws and the number of draws made so far; the clock
  is the full year and the month index \<^verbatim>\<open>getMonth()\<close>, which is read modulo 12
  since the index is one of 0 to 11.
\<close>

record env =
  draws :: "nat \<Rightarrow> nat"
  drawn :: nat
  clock_year :: int
  clock_month :: nat

text \<open>
  \<^verbatim>\<open>Math.floor(Math.random() * n)\<close> for an integer \<open>n\<close>: one draw, a number from 0 to
  \<open>n - 1\<close> (0 when \<open>n\<close> is 0). Which one is up to the source, so it is read off the
  current draw.
\<close>

definition random_below :: "nat \<Rightarrow> env \<Rightarrow> nat \<times> env" where
  "random_below n e =
     ((if n = 0 then 0 else draws e (drawn e) mod n), e\<lparr>drawn := Suc (drawn e)\<rparr>)"

definition getFullYear :: "env \<Rightarrow> int" where
  "getFullYear e = clock_year e"

definition getMonth :: "env \<Rightarrow> nat" where
  "getMonth e = clock_month e mod 12"

text \<open>The loop \<^verbatim>\<open>for (i = 0; i < n; i++) s += Math.floor(Math.random() * 10)\<close>, which
  the engine runs at lines 193 to 195 and at lines 125 to 127: the digits appended.\<close>

fun random_digits :: "nat \<Rightarrow> env \<Rightarrow> string \<times> env" where
  "random_digits 0 e = ([], e)"
| "random_digits (Suc n) e =
     (let (d, e1) = random_below 10 e;
          (ds, e2) = random_digits n e1
      in (num_toString (Some (int d)) @ ds, e2))"

section \<open>Wildcard expander\<close>

text \<open>The character class \<^verbatim>\<open>[\*XxQ#_?]\<close> of lines 134, 212, 223 and 266.\<close>

definition is_wildcard :: "char \<Rightarrow> bool" where
  "is_wildcard c = (c \<in> set ''*XxQ#_?'')"

text \<open>\<^verbatim>\<open>/[\*XxQ#_?]/.test(s)\<close>\<close>

definition has_wildcard :: "string \<Rightarrow> bool" where
  "has_wildcard s = (filter is_wildcard s \<noteq> [])"

text \<open>\<^verbatim>\<open>fillWildcards\<close> (lines 133 to 135): \<^verbatim>\<open>replace\<close> with the \<^verbatim>\<open>g\<close> flag calls the
  function once for each match, from left to right, and puts the number it returns
  in place of the match, as text.\<close>

fun fillWildcards :: "string \<Rightarrow> env \<Rightarrow> string \<times> env" where
  "fillWildcards [] e = ([], e)"
| "fillWildcards (c # cs) e =
     (if is_wildcard c
      then (let (d, e1) = random_below 10 e;
                (r, e2) = fillWildcards cs e1
            in (num_toString (Some (int d)) @ r, e2))
      else (let (r, e2) = fillWildcards cs e in (c # r, e2)))"

section \<open>Pattern parser\<close>

text \<open>\<^verbatim>\<open>cleanInput\<close> (lines 138 to 140): \<^verbatim>\<open>replace(/\s+/g, "")\<close> deletes each maximal run
  of white space.\<close>

function cleanInput :: "string \<Rightarrow> string" where
  "cleanInput [] = []"
| "cleanInput (c # cs) =
     (if is_space c then cleanInput (dropWhile is_space cs) else c # cleanInput cs)"
  by pat_completeness auto
termination
  by (relation "measure length") (auto simp: less_Suc_eq_le length_dropWhile_le)

text \<open>The character class \<^verbatim>\<open>[\|\/:\-]\<close> of line 148.\<close>

definition is_separator :: "char \<Rightarrow> bool" where
  "is_separator c = (c \<in> set ''|/:-'')"

text \<open>\<^verbatim>\<open>split\<close> on a one-character class: the scan keeps the piece read since the last
  match and closes it at each match and at the end, so that two matches in a row, or
  one at either end, give an empty piece.\<close>

fun split_loop :: "string \<Rightarrow> string \<Rightarrow> string list" where
  "split_loop [] piece = [piece]"
| "split_loop (c # cs) piece =
     (if is_separator c then piece # split_loop cs [] else split_loop cs (piece @ [c]))"

definition split_separators :: "string \<Rightarrow> string list" where
  "split_separators s = split_loop s []"

record parsed =
  bin :: string
  p_month :: "string option"
  p_year :: "string option"
  p_cvv :: "string option"

text \<open>\<^verbatim>\<open>parts[i]\<close> is \<^verbatim>\<open>undefined\<close> past the end, and \<^verbatim>\<open>x || y\<close> is \<open>y\<close> when \<open>x\<close> is
  \<^verbatim>\<open>undefined\<close> or the empty string.\<close>

definition part_or_null :: "string list \<Rightarrow> nat \<Rightarrow> string option" where
  "part_or_null parts i =
     (if i < length parts \<and> parts ! i \<noteq> [] then Some (parts ! i) else None)"

text \<open>\<^verbatim>\<open>parseInputPattern\<close> (lines 143 to 156).\<close>

definition parseInputPattern :: "string \<Rightarrow> parsed" where
  "parseInputPattern input =
     (let cleanedInput = cleanInput input;
          parts = filter (\<lambda>part. length part > 0) (split_separators cleanedInput)
      in \<lparr> bin = (case part_or_null parts 0 of Some b \<Rightarrow> b | None \<Rightarrow> []),
           p_month = part_or_null parts 1,
           p_year = part_or_null parts 2,
           p_cvv = part_or_null parts 3 \<rparr>)"

section \<open>Brand classifier\<close>

text \<open>\<^verbatim>\<open>detectCardType\<close> (lines 52 to 92). \<^verbatim>\<open>cardNumber[0]\<close> is \<^verbatim>\<open>undefined\<close> for the
  empty string, which is not \<^verbatim>\<open>"4"\<close>.\<close>

definition detectCardType :: "string \<Rightarrow> string" where
  "detectCardType cardNumber =
     (let firstDigit = take 1 cardNumber;
          firstTwoDigits = substring cardNumber 0 2;
          firstFourDigits = substring cardNumber 0 4;
          firstSixDigits = substring cardNumber 0 6
      in if firstDigit = ''4'' then ''Visa''
         else if firstTwoDigits \<in> set [''51'', ''52'', ''53'', ''54'', ''55''] \<or>
                 (num_ge (parseInt firstFourDigits) (Some 2221) \<and>
                  num_le (parseInt firstFourDigits) (Some 2720))
           then ''Mastercard''
         else if firstTwoDigits \<in> set [''34'', ''37''] then ''American Express''
         else if firstFourDigits = ''6011'' \<or> firstTwoDigits = ''65'' \<or>
                 (num_ge (parseInt firstSixDigits) (Some 644000) \<and>
                  num_le (parseInt firstSixDigits) (Some 649999))
           then ''Discover''
         else if firstTwoDigits \<in> set [''30'', ''36'', ''38''] then ''Diners Club''
         else if firstTwoDigits = ''35'' then ''JCB''
         else if firstFourDigits = ''5019'' then ''Dankort''
         else if firstFourDigits = ''4026'' \<or> firstFourDigits = ''4175'' \<or>
                 firstFourDigits = ''4405'' \<or> firstFourDigits = ''4508'' \<or>
                 firstFourDigits = ''4844'' \<or> firstFourDigits = ''4913'' \<or>
                 firstFourDigits = ''4917''
           then ''Visa Electron''
         else ''Unknown'')"

section \<open>Expiry and CVV generators\<close>

text \<open>\<^verbatim>\<open>generateRandomExpiry\<close> (lines 95 to 117), returning the pair of \<^verbatim>\<open>month\<close> and
  \<^verbatim>\<open>year\<close>. The third draw is made only in the branch that uses it.\<close>

definition generateRandomExpiry :: "env \<Rightarrow> (string \<times> string) \<times> env" where
  "generateRandomExpiry e =
     (let currentYear = getFullYear e;
          currentMonth = int (getMonth e) + 1;
          (r1, e1) = random_below 10 e;
          futureYear = currentYear + int r1 + 1;
          (r2, e2) = random_below 12 e1;
          mth = int r2 + 1;
          (finalMonth, e3) =
            (if futureYear = currentYear \<and> mth \<le> currentMonth
             then (let (r3, e3) = random_below (nat (12 - currentMonth)) e2
                   in (currentMonth + int r3 + 1, e3))
             else (mth, e2));
          finalYear = (if finalMonth > 12 then futureYear + 1 else futureYear);
          adjustedMonth = (if finalMonth > 12 then finalMonth - 12 else finalMonth)
      in ((padStart (int_toString adjustedMonth) 2 CHR ''0'',
           slice_last2 (int_toString finalYear)), e3))"

text \<open>\<^verbatim>\<open>generateCVV\<close> (lines 120 to 130).\<close>

definition generateCVV :: "string \<Rightarrow> env \<Rightarrow> string \<times> env" where
  "generateCVV cardType e =
     (let isAmex = (cardType = ''American Express'');
          len = (if isAmex then 4 else 3)
      in random_digits len e)"

section \<open>Card generator\<close>

record card =
  cardNumber :: string
  month :: string
  year :: string
  cvv :: string
  cardType :: string
  formatted :: string

text \<open>Lines 179 to 188: the length the card number is cut to, from the bin after its
  wildcards are filled.\<close>

definition targetLength :: "string \<Rightarrow> nat" where
  "targetLength filled =
     (if startsWith filled ''34'' \<or> startsWith filled ''37'' then 15
      else if startsWith filled ''30'' \<or> startsWith filled ''36'' \<or>
              startsWith filled ''38'' then 14
      else 16)"

text \<open>Lines 176 to 202: from the parsed bin to \<^verbatim>\<open>validCardNumber\<close>. The variable
  \<^verbatim>\<open>cardNumber\<close> of the source is \<open>filled\<close> after line 176, \<open>padded\<close> after line 196 and
  \<open>cut\<close> after line 199.\<close>

definition resolveCardNumber :: "string \<Rightarrow> env \<Rightarrow> string \<times> env" where
  "resolveCardNumber b e =
     (let (filled, e1) = fillWildcards b e;
          target = targetLength filled;
          (padded, e2) =
            (if length filled < target
             then (let (ds, e2) = random_digits (target - length filled) e1
                   in (filled @ ds, e2))
             else (filled, e1));
          cut = substring padded 0 target
      in (generateValidCardNumber (substring cut 0 (target - 1)), e2))"

text \<open>Lines 211 to 219: \<^verbatim>\<open>processedMonth\<close>.\<close>

definition processMonth :: "string \<Rightarrow> env \<Rightarrow> string \<times> env" where
  "processMonth m e =
     (if has_wildcard m
      then (let (filled, e1) = fillWildcards m e;
                monthNum = parseInt filled;
                (monthNum, e2) =
                  (if isNaN monthNum \<or> num_lt monthNum (Some 1) \<or> num_gt monthNum (Some 12)
                   then (let (r, e2) = random_below 12 e1 in (Some (int r + 1), e2))
                   else (monthNum, e1))
            in (padStart (num_toString monthNum) 2 CHR ''0'', e2))
      else (m, e))"

text \<open>The fallback of lines 239, 246 and 250:
  \<^verbatim>\<open>(currentYear + Math.floor(Math.random() * 10)).toString()\<close>.\<close>

definition randomYear :: "env \<Rightarrow> string \<times> env" where
  "randomYear e =
     (let (r, e1) = random_below 10 e in (int_toString (getFullYear e + int r), e1))"

text \<open>Lines 222 to 252: \<^verbatim>\<open>processedYear\<close>.\<close>

definition processYear :: "string \<Rightarrow> env \<Rightarrow> string \<times> env" where
  "processYear y e =
     (if has_wildcard y
      then (let (filled, e1) = fillWildcards y e;
                currentYear = Some (getFullYear e1)
            in if length filled = 2
               then (let currentCentury = Some ((getFullYear e1 div 100) * 100);
                         yearNum = parseInt filled;
                         expanded =
                           (if num_ge yearNum (Some 0) \<and> num_le yearNum (Some 49)
                            then num_toString (num_add currentCentury yearNum)
                            else num_toString
                                   (num_add (num_sub currentCentury (Some 100)) yearNum))
                     in if num_lt (parseInt expanded) currentYear
                        then randomYear e1 else (expanded, e1))
               else if length filled = 4
               then (let yearNum = parseInt filled
                     in if isNaN yearNum \<or> num_lt yearNum currentYear \<or>
                           num_gt yearNum (num_add currentYear (Some 20))
                        then randomYear e1 else (filled, e1))
               else randomYear e1)
      else (y, e))"

text \<open>A string or \<^verbatim>\<open>null\<close> as a condition: true for a string that is not empty.\<close>

definition truthy :: "string option \<Rightarrow> bool" where
  "truthy v = (case v of None \<Rightarrow> False | Some s \<Rightarrow> s \<noteq> [])"

text \<open>Lines 208 to 260: \<^verbatim>\<open>month\<close> and \<^verbatim>\<open>year\<close>.\<close>

definition resolveExpiry :: "parsed \<Rightarrow> env \<Rightarrow> (string \<times> string) \<times> env" where
  "resolveExpiry p e =
     (if truthy (p_month p) \<and> truthy (p_year p)
      then (let (processedMonth, e1) = processMonth (the (p_month p)) e;
                (processedYear, e2) = processYear (the (p_year p)) e1
            in ((padStart processedMonth 2 CHR ''0'',
                 (if length processedYear = 4 then slice_last2 processedYear
                  else padStart processedYear 2 CHR ''0'')), e2))
      else generateRandomExpiry e)"

text \<open>Lines 263 to 282: \<^verbatim>\<open>cvv\<close>.\<close>

definition resolveCvv :: "parsed \<Rightarrow> string \<Rightarrow> env \<Rightarrow> string \<times> env" where
  "resolveCvv p ct e =
     (if truthy (p_cvv p)
      then (let processedCvv = the (p_cvv p)
            in if has_wildcard processedCvv
               then (let (filled, e1) = fillWildcards processedCvv e;
                         isAmex = (ct = ''American Express'');
                         expectedLength = (if isAmex then 4 else 3)
                     in if length filled \<noteq> expectedLength \<or> isNaN (parseInt filled)
                        then generateCVV ct e1 else (filled, e1))
               else (processedCvv, e))
      else generateCVV ct e)"

text \<open>\<^verbatim>\<open>generateCreditCard\<close> (lines 172 to 292).\<close>

definition generateCreditCard :: "string \<Rightarrow> env \<Rightarrow> card \<times> env" where
  "generateCreditCard pattern e =
     (let p = parseInputPattern pattern;
          (validCardNumber, e1) = resolveCardNumber (bin p) e;
          ct = detectCardType validCardNumber;
          ((m, y), e2) = resolveExpiry p e1;
          (c, e3) = resolveCvv p ct e2
      in (\<lparr> cardNumber = validCardNumber, month = m, year = y, cvv = c, cardType = ct,
             formatted = validCardNumber @ ''|'' @ m @ ''|'' @ y @ ''|'' @ c \<rparr>, e3))"

section \<open>Batch generation\<close>

text \<open>
  \<^verbatim>\<open>generateMultipleCards\<close> (lines 295 to 305). The body of the loop is
  \<^verbatim>\<open>try { cards.push(generateCreditCard(pattern)) } catch (error) { console.error(...) }\<close>.
  To say what the \<^verbatim>\<open>catch\<close> does, the loop is written over any generator \<open>gen\<close> whose
  call either returns a card (\<open>Inr\<close>) or throws a value (\<open>Inl\<close>); in both cases it hands
  back the environment it has reached. The state of the loop is the array \<^verbatim>\<open>cards\<close> and
  the lines written by \<^verbatim>\<open>console.error\<close>, each the number \<^verbatim>\<open>i + 1\<close> and the value
  caught. \<open>count\<close> is a natural number: \<^verbatim>\<open>i\<close> runs over \<open>0, 1, ..., count - 1\<close>.
\<close>

record 'x batch =
  cards :: "card list"
  logged :: "(nat \<times> 'x) list"

type_synonym 'x generator = "string \<Rightarrow> env \<Rightarrow> ('x + card) \<times> env"

fun multiple_loop ::
  "'x generator \<Rightarrow> string \<Rightarrow> nat \<Rightarrow> nat \<Rightarrow> 'x batch \<times> env \<Rightarrow> 'x batch \<times> env" where
  "multiple_loop gen pattern i 0 st = st"
| "multiple_loop gen pattern i (Suc n) (b, e) =
     (case gen pattern e of
        (Inr c, e1) \<Rightarrow> multiple_loop gen pattern (Suc i) n (b\<lparr>cards := cards b @ [c]\<rparr>, e1)
      | (Inl err, e1) \<Rightarrow>
          multiple_loop gen pattern (Suc i) n (b\<lparr>logged := logged b @ [(i + 1, err)]\<rparr>, e1))"

definition generateMultipleCardsWith ::
  "'x generator \<Rightarrow> string \<Rightarrow> nat \<Rightarrow> env \<Rightarrow> 'x batch \<times> env" where
  "generateMultipleCardsWith gen pattern count e =
     multiple_loop gen pattern 0 count (\<lparr>cards = [], logged = []\<rparr>, e)"

text \<open>\<^verbatim>\<open>generateCreditCard\<close> as a generator: no step of it throws, so each call
  returns.\<close>

definition cardGenerator :: "string generator" where
  "cardGenerator pattern e = (let (c, e1) = generateCreditCard pattern e in (Inr c, e1))"

definition generateMultipleCards :: "string \<Rightarrow> nat \<Rightarrow> env \<Rightarrow> string batch \<times> env" where
  "generateMultipleCards pattern count e = generateMultipleCardsWith cardGenerator pattern count e"

section \<open>The specification's reading of the parser and of a batch\<close>

text \<open>
  The parser as the specification words it: strip all white space, split on the
  separators dropping the empty segments, assign the segments by position. A segment
  is a maximal run of characters that are not separators.
\<close>

definition strip_whitespace :: "string \<Rightarrow> string" where
  "strip_whitespace s = filter (\<lambda>c. \<not> is_space c) s"

function segments :: "string \<Rightarrow> string list" where
  "segments [] = []"
| "segments (c # cs) =
     (if is_separator c then segments cs
      else (c # takeWhile (\<lambda>x. \<not> is_separator x) cs) #
           segments (dropWhile (\<lambda>x. \<not> is_separator x) cs))"
  by pat_completeness auto
termination
  by (relation "measure length") (auto simp: less_Suc_eq_le length_dropWhile_le)

definition segment_at :: "string list \<Rightarrow> nat \<Rightarrow> string option" where
  "segment_at segs i = (if i < length segs then Some (segs ! i) else None)"

text \<open>An absent bin is the empty string (line 151); the other fields are optional.\<close>

definition spec_parse :: "string \<Rightarrow> parsed" where
  "spec_parse raw =
     (let segs = segments (strip_whitespace raw)
      in \<lparr> bin = (case segment_at segs 0 of Some b \<Rightarrow> b | None \<Rightarrow> []),
           p_month = segment_at segs 1,
           p_year = segment_at segs 2,
           p_cvv = segment_at segs 3 \<rparr>)"

text \<open>The outcomes of \<open>n\<close> calls of a generator in a row, each from the environment
  the call before it reached, and the environment after the last.\<close>

fun invocations :: "'x generator \<Rightarrow> string \<Rightarrow> nat \<Rightarrow> env \<Rightarrow> ('x + card) list \<times> env" where
  "invocations gen pattern 0 e = ([], e)"
| "invocations gen pattern (Suc n) e =
     (let (r, e1) = gen pattern e;
          (rs, e2) = invocations gen pattern n e1
      in (r # rs, e2))"

text \<open>The cards among the outcomes, in order, and the thrown values, each with the
  number of its call counted from 1.\<close>

fun returned :: "('x + card) list \<Rightarrow> card list" where
  "returned [] = []"
| "returned (Inr c # rs) = c # returned rs"
| "returned (Inl x # rs) = returned rs"

fun thrown :: "nat \<Rightarrow> ('x + card) list \<Rightarrow> (nat \<times> 'x) list" where
  "thrown i [] = []"
| "thrown i (Inr c # rs) = thrown (Suc i) rs"
| "thrown i (Inl x # rs) = (i + 1, x) # thrown (Suc i) rs"

section \<open>Auxiliary notions for the proofs\<close>

text \<open>The fifteen characters \<^verbatim>\<open>generateValidCardNumber\<close> keeps of its argument, and
  the check digit for a sum.\<close>

definition base15 :: "string \<Rightarrow> string" where
  "base15 d = take 15 (d @ replicate (15 - length d) CHR ''0'')"

definition check_digit :: "int \<Rightarrow> int" where
  "check_digit s = (10 - s mod 10) mod 10"

text \<open>A string of decimal digits.\<close>

definition digits_only :: "string \<Rightarrow> bool" where
  "digits_only s = list_all is_digit s"

section \<open>Digits, numbers and strings\<close>

lemma digit_val_range: "is_digit c \<Longrightarrow> 0 \<le> digit_val c \<and> digit_val c \<le> 9"
  by (auto simp: is_digit_def digit_val_def)

lemma is_digit_digit_char: "0 \<le> d \<Longrightarrow> d \<le> 9 \<Longrightarrow> is_digit (digit_char d)"
  by (auto simp: is_digit_def digit_char_def)

lemma digit_val_digit_char: "0 \<le> d \<Longrightarrow> d \<le> 9 \<Longrightarrow> digit_val (digit_char d) = d"
  by (auto simp: digit_val_def digit_char_def)

lemma digit_char_digit_val: "is_digit c \<Longrightarrow> digit_char (digit_val c) = c"
proof -
  assume "is_digit c"
  then have "48 + nat (int (of_char c) - 48) = (of_char c :: nat)"
    unfolding is_digit_def by arith
  then show ?thesis
    by (simp add: digit_char_def digit_val_def)
qed

lemma is_digit_zero: "is_digit CHR ''0''"
  by (simp add: is_digit_def)

lemma parseInt_single: "parseInt [c] = (if is_digit c then Some (digit_val c) else None)"
  by (auto simp: parseInt_def is_digit_def digit_val_def radix_digit_def Let_def is_space_def)

lemma num_toString_digit: "0 \<le> d \<Longrightarrow> d \<le> 9 \<Longrightarrow> num_toString (Some d) = [digit_char d]"
  by (simp add: num_toString_def int_toString_def nat_toString.simps)

lemma nat_toString_nonempty: "nat_toString n \<noteq> []"
  by (subst nat_toString.simps) simp

lemma int_toString_nonempty: "int_toString i \<noteq> []"
  by (simp add: int_toString_def nat_toString_nonempty)

lemma num_toString_nonempty: "num_toString a \<noteq> []"
  by (cases a) (simp_all add: num_toString_def int_toString_nonempty)

lemma substring_0: "substring s 0 n = take n s"
  by (simp add: substring_def Let_def min_def max_def)

lemma length_padStart: "n \<le> length (padStart s n c)"
  by (simp add: padStart_def)

lemma slice_last2_nonempty: "s \<noteq> [] \<Longrightarrow> slice_last2 s \<noteq> []"
  by (cases s) (auto simp: slice_last2_def)

lemma length_slice_last2_4: "length s = 4 \<Longrightarrow> length (slice_last2 s) = 2"
  by (simp add: slice_last2_def)

section \<open>The random source\<close>

lemma random_below_lt: "0 < n \<Longrightarrow> fst (random_below n e) < n"
  by (simp add: random_below_def)

lemma random_digit_string:
  "num_toString (Some (int (fst (random_below 10 e)))) =
   [digit_char (int (fst (random_below 10 e)))]"
  using random_below_lt [of 10 e] by (simp add: num_toString_digit)

lemma random_digit_is_digit: "is_digit (digit_char (int (fst (random_below 10 e))))"
  using random_below_lt [of 10 e] by (simp add: is_digit_digit_char)

lemma length_random_digits: "length (fst (random_digits n e)) = n"
  by (induction n arbitrary: e) (simp_all add: split_beta Let_def random_digit_string)

lemma digits_random_digits: "list_all is_digit (fst (random_digits n e))"
  by (induction n arbitrary: e)
     (simp_all add: split_beta Let_def random_digit_string random_digit_is_digit)

section \<open>The wildcard expander\<close>

lemma fillWildcards_none: "\<not> has_wildcard s \<Longrightarrow> fillWildcards s e = (s, e)"
  by (induction s arbitrary: e) (auto simp: has_wildcard_def split: if_splits)

lemma length_fillWildcards: "length (fst (fillWildcards s e)) = length s"
  by (induction s arbitrary: e) (simp_all add: split_beta Let_def random_digit_string)

lemma digits_fillWildcards:
  "list_all (\<lambda>c. is_digit c \<or> is_wildcard c) s \<Longrightarrow> list_all is_digit (fst (fillWildcards s e))"
  by (induction s arbitrary: e)
     (auto simp: split_beta Let_def random_digit_string random_digit_is_digit)

text \<open>Position by position: a character of the class becomes a digit, any other
  character stays.\<close>

lemma fillWildcards_pointwise:
  "i < length s \<Longrightarrow>
   (if is_wildcard (s ! i) then is_digit (fst (fillWildcards s e) ! i)
    else fst (fillWildcards s e) ! i = s ! i)"
proof (induction s arbitrary: e i)
  case Nil
  then show ?case by simp
next
  case (Cons c cs)
  show ?case
  proof (cases i)
    case 0
    then show ?thesis
      by (simp add: split_beta Let_def random_digit_string random_digit_is_digit)
  next
    case (Suc j)
    then have j: "j < length cs"
      using Cons.prems by simp
    show ?thesis
      using Cons.IH [OF j] Suc
      by (simp add: split_beta Let_def random_digit_string)
  qed
qed

text \<open>
  Claim C2. The wildcard expander replaces exactly the six characters
  \<^verbatim>\<open>* X x ? # _\<close> with a random digit and passes every other character through, so a
  string with none of the six comes back unchanged. The comment at line 132 lists these
  six, but the character class at line 134 has a seventh member, \<^verbatim>\<open>Q\<close>: the string
  \<^verbatim>\<open>Q\<close> holds none of the six and comes back as a digit, whatever the random source.
\<close>

theorem fillWildcards_replaces_Q:
  "CHR ''Q'' \<notin> set ''*Xx?#_'' \<and> fst (fillWildcards ''Q'' e) \<noteq> ''Q''"
proof -
  have "fst (fillWildcards ''Q'' e) = num_toString (Some (int (fst (random_below 10 e))))"
    by (simp add: is_wildcard_def split_beta)
  then have "fst (fillWildcards ''Q'' e) = [digit_char (int (fst (random_below 10 e)))]"
    by (simp add: random_digit_string)
  moreover have "digit_char (int n) \<noteq> CHR ''Q''" if "n < 10" for n
  proof
    assume "digit_char (int n) = CHR ''Q''"
    then have "(of_char (digit_char (int n)) :: nat) = of_char CHR ''Q''"
      by simp
    then have "48 + n = 81"
      using that by (simp add: digit_char_def)
    then show False
      using that by simp
  qed
  ultimately show ?thesis
    using random_below_lt [of 10 e] by simp
qed

section \<open>The checksum engine\<close>

lemma luhn_loop_acc: "luhn_loop ds b a = a + luhn_loop ds b 0"
proof (induction ds arbitrary: b a)
  case Nil
  show ?case by simp
next
  case (Cons d ds)
  show ?case
    using Cons.IH [of "\<not> b" "a + (if b then (if d * 2 > 9 then d * 2 - 9 else d * 2) else d)"]
          Cons.IH [of "\<not> b" "(if b then (if d * 2 > 9 then d * 2 - 9 else d * 2) else d)"]
    by (simp add: Let_def)
qed

lemma luhn_loop_nonneg:
  "\<forall>d \<in> set ds. 0 \<le> d \<Longrightarrow> 0 \<le> a \<Longrightarrow> 0 \<le> luhn_loop ds b a"
  by (induction ds arbitrary: b a) (auto simp: Let_def)

lemma luhn_sum_nonneg:
  "list_all is_digit cs \<Longrightarrow> 0 \<le> luhn_loop (map digit_val cs) b 0"
  by (rule luhn_loop_nonneg) (auto simp: list_all_iff digit_val_range)

lemma check_loop_digits:
  "list_all is_digit cs \<Longrightarrow>
   check_loop cs b (Some a) = Some (luhn_loop (map digit_val cs) b a)"
  by (induction cs arbitrary: b a)
     (auto simp: parseInt_single Let_def num_mul_def num_gt_def num_lt_def num_sub_def num_add_def)

lemma length_base15: "length (base15 d) = 15"
  by (simp add: base15_def)

lemma digits_base15: "list_all is_digit d \<Longrightarrow> list_all is_digit (base15 d)"
  by (auto simp: base15_def list_all_iff is_digit_zero dest: in_set_takeD)

lemma check_digit_range: "0 \<le> check_digit s \<and> check_digit s \<le> 9"
  by (simp add: check_digit_def)

lemma check_digit_sum: "(check_digit s + s) mod 10 = 0"
proof -
  have "(check_digit s + s) mod 10 = ((10 - s mod 10) + s) mod 10"
    unfolding check_digit_def by (rule mod_add_left_eq)
  also have "\<dots> = ((10 - s mod 10) + s mod 10) mod 10"
    by (rule mod_add_right_eq [symmetric])
  also have "\<dots> = 0"
    by simp
  finally show ?thesis .
qed

lemma check_digit_unique:
  assumes "0 \<le> k" and "k \<le> 9" and "(k + s) mod 10 = 0"
  shows "k = check_digit s"
proof -
  define r where "r = s mod 10"
  have r: "0 \<le> r" "r < 10"
    by (simp_all add: r_def)
  have "(k + r) mod 10 = 0"
    using assms(3) by (simp add: r_def mod_add_right_eq)
  then have "10 dvd k + r"
    by (simp add: dvd_eq_mod_eq_0)
  then obtain q where q: "k + r = 10 * q"
    by (auto simp: dvd_def)
  have "q = 0 \<or> q = 1"
    using q r assms(1,2) by arith
  then have "10 - r = k \<or> 10 - r = k + 10"
    using q by auto
  then have "(10 - r) mod 10 = k mod 10"
    by auto
  then have "(10 - r) mod 10 = k"
    using assms(1,2) by simp
  then show ?thesis
    by (simp only: check_digit_def r_def)
qed

text \<open>On a string of digits the appender returns the fifteen kept characters and one
  more digit, the check digit of their sum.\<close>

lemma generateValidCardNumber_digits:
  assumes "list_all is_digit d"
  shows "generateValidCardNumber d =
         base15 d @ [digit_char (check_digit (luhn_loop (map digit_val (rev (base15 d))) True 0))]"
proof -
  let ?c = "base15 d"
  let ?s = "luhn_loop (map digit_val (rev ?c)) True 0"
  have dc: "list_all is_digit (rev ?c)"
    using digits_base15 [OF assms] by (simp add: list_all_iff)
  have loop: "check_loop (rev ?c) True (Some 0) = Some ?s"
    using check_loop_digits [OF dc] by simp
  have nn: "0 \<le> ?s"
    using luhn_sum_nonneg [OF dc] .
  have "0 \<le> 10 - ?s mod 10"
    by presburger
  then have rem: "num_rem (num_sub (Some 10) (num_rem (Some ?s) (Some 10))) (Some 10)
             = Some (check_digit ?s)"
    using nn by (simp add: num_rem_def num_sub_def check_digit_def)
  have c15: "substring (padEnd d 15 CHR ''0'') 0 15 = ?c"
    by (simp add: substring_0 padEnd_def base15_def)
  have str: "num_toString (Some (check_digit ?s)) = [digit_char (check_digit ?s)]"
    using check_digit_range [of ?s] by (simp add: num_toString_digit)
  show ?thesis
    by (simp only: generateValidCardNumber_def c15 Let_def loop rem str)
qed

lemma luhnCheck_snoc:
  assumes "list_all is_digit cs" and "is_digit c"
  shows "luhnCheck (cs @ [c]) =
         ((digit_val c + luhn_loop (map digit_val (rev cs)) True 0) mod 10 = 0)"
proof -
  have f: "filter is_digit (cs @ [c]) = cs @ [c]"
    using assms by (auto simp: list_all_iff)
  show ?thesis
    unfolding luhnCheck_def f
    using luhn_loop_acc [of "map digit_val (rev cs)" True "digit_val c"]
    by (simp add: Let_def rev_map)
qed

lemma generated_number_valid:
  assumes d: "list_all is_digit d"
  shows "length (generateValidCardNumber d) = 16 \<and> luhnCheck (generateValidCardNumber d)"
proof -
  let ?s = "luhn_loop (map digit_val (rev (base15 d))) True 0"
  have k: "is_digit (digit_char (check_digit ?s))"
    using check_digit_range [of ?s] by (simp add: is_digit_digit_char)
  show ?thesis
    using check_digit_range [of ?s] check_digit_sum [of ?s]
    by (simp add: generateValidCardNumber_digits [OF d] length_base15
        luhnCheck_snoc [OF digits_base15 [OF d] k] digit_val_digit_char)
qed

text \<open>
  Claim C3. For every string of decimal digits \<open>d\<close>, which
  \<^verbatim>\<open>generateValidCardNumber\<close> pads or cuts to fifteen digits itself,
  \<^verbatim>\<open>luhnCheck(generateValidCardNumber(d))\<close> is true.
\<close>

theorem generateValidCardNumber_passes_luhnCheck:
  "digits_only d \<Longrightarrow> luhnCheck (generateValidCardNumber d)"
  using generated_number_valid [of d] by (simp add: digits_only_def)

theorem generateValidCardNumber_passes_luhnCheck_witness:
  "digits_only ''453201'' \<and> luhnCheck (generateValidCardNumber ''453201'')"
proof -
  have h: "digits_only ''453201''"
    by code_simp
  show ?thesis
    using h generateValidCardNumber_passes_luhnCheck [OF h] by simp
qed

section \<open>The pattern parser\<close>

lemma cleanInput_strips: "cleanInput s = strip_whitespace s"
proof (induction s rule: cleanInput.induct)
  case 1
  show ?case by (simp add: strip_whitespace_def)
next
  case (2 c cs)
  have "filter (\<lambda>c. \<not> is_space c) (dropWhile is_space cs) = filter (\<lambda>c. \<not> is_space c) cs"
    by (induction cs) auto
  with 2 show ?case by (auto simp: strip_whitespace_def)
qed

lemma segments_piece:
  assumes "piece \<noteq> []" and "\<forall>x \<in> set piece. \<not> is_separator x"
  shows "segments (piece @ rest) =
         (piece @ takeWhile (\<lambda>x. \<not> is_separator x) rest) #
         segments (dropWhile (\<lambda>x. \<not> is_separator x) rest)"
proof (cases piece)
  case Nil
  with assms show ?thesis by simp
next
  case (Cons a as)
  then have a: "\<not> is_separator a" and as: "\<And>x. x \<in> set as \<Longrightarrow> \<not> is_separator x"
    using assms by auto
  show ?thesis
    using a by (simp add: Cons takeWhile_append2 [OF as] dropWhile_append2 [OF as])
qed

lemma split_loop_segments:
  "\<forall>x \<in> set piece. \<not> is_separator x \<Longrightarrow>
   filter (\<lambda>part. length part > 0) (split_loop s piece) = segments (piece @ s)"
proof (induction s arbitrary: piece)
  case Nil
  show ?case
  proof (cases "piece = []")
    case True
    then show ?thesis by simp
  next
    case False
    then show ?thesis using segments_piece [OF False Nil, of "[]"] by simp
  qed
next
  case (Cons c s)
  show ?case
  proof (cases "is_separator c")
    case True
    have "segments (piece @ c # s) = (if piece = [] then segments s else piece # segments s)"
    proof (cases "piece = []")
      case True
      then show ?thesis using \<open>is_separator c\<close> by simp
    next
      case False
      then show ?thesis
        using segments_piece [OF False Cons.prems, of "c # s"] \<open>is_separator c\<close> by simp
    qed
    then show ?thesis using True Cons.IH [of "[]"] by auto
  next
    case False
    then show ?thesis using Cons.IH [of "piece @ [c]"] Cons.prems by simp
  qed
qed

lemma segments_nonempty: "\<forall>p \<in> set (segments s). p \<noteq> []"
  by (induction s rule: segments.induct) auto

lemma part_or_null_segments: "part_or_null (segments s) i = segment_at (segments s) i"
  using segments_nonempty [of s] by (auto simp: part_or_null_def segment_at_def)

lemma parts_are_segments:
  "filter (\<lambda>part. length part > 0) (split_separators (cleanInput raw)) =
   segments (strip_whitespace raw)"
  using split_loop_segments [of "[]" "cleanInput raw"]
  by (simp add: split_separators_def cleanInput_strips)

lemma parsed_nonempty:
  "p_month (parseInputPattern pattern) = Some m \<Longrightarrow> m \<noteq> []"
  "p_year (parseInputPattern pattern) = Some y \<Longrightarrow> y \<noteq> []"
  "p_cvv (parseInputPattern pattern) = Some v \<Longrightarrow> v \<noteq> []"
  by (auto simp: parseInputPattern_def part_or_null_def Let_def split: if_splits)

text \<open>
  Claim C7. \<^verbatim>\<open>parseInputPattern\<close> strips all white space from the raw input, splits
  on the four separators \<^verbatim>\<open>| / : -\<close>, drops the empty segments that separators in a row
  produce, and assigns the segments left by position to bin, month, year and cvv, a
  missing one being absent (an absent bin is the empty string): it is the parser of the
  specification, \<^const>\<open>spec_parse\<close>, on every input. In particular
  \<^verbatim>\<open>4532********|12|26|123\<close> parses to bin \<^verbatim>\<open>4532********\<close>, month \<^verbatim>\<open>12\<close>, year
  \<^verbatim>\<open>26\<close> and cvv \<^verbatim>\<open>123\<close>.
\<close>

theorem parseInputPattern_meets_spec:
  "parseInputPattern raw = spec_parse raw \<and>
   parseInputPattern ''4532********|12|26|123'' =
     \<lparr>bin = ''4532********'', p_month = Some ''12'', p_year = Some ''26'',
      p_cvv = Some ''123''\<rparr>"
proof -
  have "parseInputPattern raw = spec_parse raw"
    by (simp only: parseInputPattern_def spec_parse_def parts_are_segments
        part_or_null_segments Let_def)
  moreover have "parseInputPattern ''4532********|12|26|123'' =
     \<lparr>bin = ''4532********'', p_month = Some ''12'', p_year = Some ''26'',
      p_cvv = Some ''123''\<rparr>"
    by code_simp
  ultimately show ?thesis by simp
qed

section \<open>The brand classifier\<close>

lemma detectCardType_nonempty: "detectCardType s \<noteq> []"
  by (simp add: detectCardType_def Let_def)

text \<open>
  Claim C5. For every input string \<^verbatim>\<open>detectCardType\<close> never returns
  \<^verbatim>\<open>Visa Electron\<close>: each prefix of that rule begins with the digit 4, which the first
  rule has already answered with \<^verbatim>\<open>Visa\<close>.
\<close>

theorem detectCardType_never_Visa_Electron: "detectCardType s \<noteq> ''Visa Electron''"
proof (cases "take 1 s = ''4''")
  case True
  then show ?thesis by (simp add: detectCardType_def Let_def)
next
  case False
  have "take 1 (take 4 s) = take 1 s" by simp
  then have no: "\<And>w. take 1 w = ''4'' \<Longrightarrow> substring s 0 4 \<noteq> w"
    using False by (metis substring_0)
  have n: "substring s 0 4 \<noteq> ''4026''" "substring s 0 4 \<noteq> ''4175''"
     "substring s 0 4 \<noteq> ''4405''" "substring s 0 4 \<noteq> ''4508''"
     "substring s 0 4 \<noteq> ''4844''" "substring s 0 4 \<noteq> ''4913''"
     "substring s 0 4 \<noteq> ''4917''"
    by (rule no, simp)+
  show ?thesis
    using False n by (simp add: detectCardType_def Let_def)
qed

section \<open>The card generator\<close>

lemma gen_cardNumber:
  "cardNumber (fst (generateCreditCard pattern e)) =
   fst (resolveCardNumber (bin (parseInputPattern pattern)) e)"
  by (simp add: generateCreditCard_def Let_def split_beta)

lemma gen_cardType:
  "cardType (fst (generateCreditCard pattern e)) =
   detectCardType (fst (resolveCardNumber (bin (parseInputPattern pattern)) e))"
  by (simp add: generateCreditCard_def Let_def split_beta)

lemma gen_expiry:
  "(month (fst (generateCreditCard pattern e)), year (fst (generateCreditCard pattern e))) =
   fst (resolveExpiry (parseInputPattern pattern)
          (snd (resolveCardNumber (bin (parseInputPattern pattern)) e)))"
  by (simp add: generateCreditCard_def Let_def split_beta)

lemma gen_cvv:
  "cvv (fst (generateCreditCard pattern e)) =
   fst (resolveCvv (parseInputPattern pattern)
          (detectCardType (fst (resolveCardNumber (bin (parseInputPattern pattern)) e)))
          (snd (resolveExpiry (parseInputPattern pattern)
             (snd (resolveCardNumber (bin (parseInputPattern pattern)) e)))))"
  by (simp add: generateCreditCard_def Let_def split_beta)

lemma gen_formatted:
  "formatted (fst (generateCreditCard pattern e)) =
   cardNumber (fst (generateCreditCard pattern e)) @ ''|'' @
   month (fst (generateCreditCard pattern e)) @ ''|'' @
   year (fst (generateCreditCard pattern e)) @ ''|'' @
   cvv (fst (generateCreditCard pattern e))"
  by (simp add: generateCreditCard_def Let_def split_beta)

subsection \<open>The card number\<close>

text \<open>A bin without wildcards that is long enough draws nothing: the number is the
  appender's, on the bin cut to one character less than the target length.\<close>

lemma resolve_literal:
  assumes "\<not> has_wildcard b" and "targetLength b \<le> length b"
  shows "resolveCardNumber b e =
         (generateValidCardNumber (take (targetLength b - 1) b), e)"
  using assms
  by (simp add: resolveCardNumber_def fillWildcards_none Let_def substring_0 min_def)

text \<open>Whatever the bin, the number is what the appender returns, so it has the
  fifteen characters the appender keeps and the text of a check digit after them.\<close>

lemma length_generateValidCardNumber: "16 \<le> length (generateValidCardNumber d)"
proof -
  have one: "1 \<le> length (num_toString a)" for a
    using num_toString_nonempty [of a] by (cases "num_toString a") auto
  have l15: "length (substring (padEnd d 15 CHR ''0'') 0 15) = 15"
    by (simp add: substring_0 padEnd_def)
  show ?thesis
    unfolding generateValidCardNumber_def Let_def length_append l15
    using one by simp
qed

lemma length_resolveCardNumber: "16 \<le> length (fst (resolveCardNumber b e))"
  by (simp add: resolveCardNumber_def Let_def split_beta length_generateValidCardNumber)

text \<open>For a bin of digits and wildcards, as the interface's check of the pattern lets
  through, the number has sixteen digits and passes \<^verbatim>\<open>luhnCheck\<close>, whatever the
  target length was.\<close>

lemma resolveCardNumber_valid:
  assumes "list_all (\<lambda>c. is_digit c \<or> is_wildcard c) b"
  shows "length (fst (resolveCardNumber b e)) = 16 \<and> luhnCheck (fst (resolveCardNumber b e))"
proof -
  obtain filled e1 where f: "fillWildcards b e = (filled, e1)"
    by (cases "fillWildcards b e")
  have df: "list_all is_digit filled"
    using digits_fillWildcards [OF assms, of e] f by simp
  define padded where "padded =
    (if length filled < targetLength filled
     then filled @ fst (random_digits (targetLength filled - length filled) e1)
     else filled)"
  have dp: "list_all is_digit padded"
    using df digits_random_digits [of "targetLength filled - length filled" e1]
    by (simp add: padded_def)
  define arg where "arg = take (targetLength filled - 1) (take (targetLength filled) padded)"
  have da: "list_all is_digit arg"
    using dp by (auto simp: arg_def list_all_iff dest: in_set_takeD)
  have "fst (resolveCardNumber b e) = generateValidCardNumber arg"
    by (simp add: resolveCardNumber_def f Let_def split_beta substring_0 arg_def padded_def
        del: take_take)
  then show ?thesis
    using generated_number_valid [OF da] by simp
qed

lemma generateCreditCard_number_valid:
  assumes "list_all (\<lambda>c. is_digit c \<or> is_wildcard c) (bin (parseInputPattern pattern))"
  shows "length (cardNumber (fst (generateCreditCard pattern e))) = 16 \<and>
         luhnCheck (cardNumber (fst (generateCreditCard pattern e)))"
  using resolveCardNumber_valid [OF assms] by (simp add: gen_cardNumber)

text \<open>
  Claim C1. For every pattern the card number has length 15 when the bin, after its
  wildcards are filled, starts with 34 or 37, length 14 when it starts with 30, 36 or
  38, and length 16 otherwise, and it passes \<^verbatim>\<open>luhnCheck\<close>. The code sets the target
  length to 15 for the pattern \<^verbatim>\<open>340000000000000\<close> (lines 181 to 184), cuts the bin to
  14 digits (line 202), and then \<^verbatim>\<open>generateValidCardNumber\<close> pads them back to 15 with
  a zero (line 27) before it appends the check digit: the number returned has 16
  digits, not 15, whatever the random source and the clock.
\<close>

theorem amex_pattern_gets_16_digits:
  "startsWith (fst (fillWildcards (bin (parseInputPattern ''340000000000000'')) e)) ''34'' \<and>
   targetLength (fst (fillWildcards (bin (parseInputPattern ''340000000000000'')) e)) = 15 \<and>
   cardNumber (fst (generateCreditCard ''340000000000000'' e)) = ''3400000000000000'' \<and>
   length (cardNumber (fst (generateCreditCard ''340000000000000'' e))) = 16"
proof -
  have b: "bin (parseInputPattern ''340000000000000'') = ''340000000000000''"
    by code_simp
  have w: "\<not> has_wildcard ''340000000000000''"
    by code_simp
  have t: "targetLength ''340000000000000'' = 15"
    by code_simp
  have s: "startsWith ''340000000000000'' ''34''"
    by code_simp
  have g: "generateValidCardNumber (take (15 - 1) ''340000000000000'') = ''3400000000000000''"
    by code_simp
  have r: "resolveCardNumber ''340000000000000'' e = (''3400000000000000'', e)"
    using resolve_literal [OF w, of e] g by (simp add: t)
  have 1: "fst (fillWildcards (bin (parseInputPattern ''340000000000000'')) e) = ''340000000000000''"
    by (simp only: b fillWildcards_none [OF w] fst_conv)
  have 2: "cardNumber (fst (generateCreditCard ''340000000000000'' e)) = ''3400000000000000''"
    by (simp only: gen_cardNumber b r fst_conv)
  show ?thesis
    unfolding 1 2 using s t by simp
qed

lemma appender_fixes_valid_number:
  assumes len: "length n = 16" and dig: "list_all is_digit n" and ok: "luhnCheck n"
  shows "generateValidCardNumber (take 15 n) = n"
proof -
  let ?c = "take 15 n"
  let ?x = "last n"
  have ne: "n \<noteq> []" using len by auto
  have "butlast n = ?c"
    using len by (simp add: butlast_conv_take)
  then have n: "n = ?c @ [?x]"
    using ne append_butlast_last_id [of n] by simp
  have dc: "list_all is_digit ?c"
    using dig by (auto simp: list_all_iff dest: in_set_takeD)
  have dx: "is_digit ?x"
    using dig ne by (simp add: list_all_iff)
  have b: "base15 ?c = ?c"
    using len by (simp add: base15_def)
  let ?s = "luhn_loop (map digit_val (rev ?c)) True 0"
  have "luhnCheck (?c @ [?x])"
    using ok n by simp
  then have "(digit_val ?x + ?s) mod 10 = 0"
    using luhnCheck_snoc [OF dc dx] by simp
  then have "digit_val ?x = check_digit ?s"
    using digit_val_range [OF dx] by (intro check_digit_unique) auto
  then have "digit_char (check_digit ?s) = ?x"
    using digit_char_digit_val [OF dx] by simp
  then have "generateValidCardNumber ?c = ?c @ [?x]"
    using generateValidCardNumber_digits [OF dc] b by simp
  then show ?thesis
    using n by simp
qed

text \<open>
  Claim C6. For every Luhn-valid string \<open>n\<close> of 16 digits,
  \<^verbatim>\<open>generateValidCardNumber\<close> on the first 15 digits of \<open>n\<close> returns \<open>n\<close>; and the
  pattern \<^verbatim>\<open>4111111111111111\<close> gives the card type \<^verbatim>\<open>Visa\<close> and a card number equal to
  the pattern, last digit included, whatever the random source and the clock.
\<close>

theorem check_digit_recomputation_idempotent:
  "(length n = 16 \<and> digits_only n \<and> luhnCheck n \<longrightarrow>
      generateValidCardNumber (take 15 n) = n) \<and>
   cardNumber (fst (generateCreditCard ''4111111111111111'' e)) = ''4111111111111111'' \<and>
   cardType (fst (generateCreditCard ''4111111111111111'' e)) = ''Visa''"
proof -
  have b: "bin (parseInputPattern ''4111111111111111'') = ''4111111111111111''"
    by code_simp
  have w: "\<not> has_wildcard ''4111111111111111''"
    by code_simp
  have t: "targetLength ''4111111111111111'' = 16"
    by code_simp
  have v: "length ''4111111111111111'' = 16 \<and> list_all is_digit ''4111111111111111'' \<and>
           luhnCheck ''4111111111111111''"
    by code_simp
  have g: "generateValidCardNumber (take 15 ''4111111111111111'') = ''4111111111111111''"
    using v by (intro appender_fixes_valid_number) simp_all
  have r: "resolveCardNumber ''4111111111111111'' e = (''4111111111111111'', e)"
    using resolve_literal [OF w, of e] g by (simp add: t)
  have d: "detectCardType ''4111111111111111'' = ''Visa''"
    by code_simp
  have "cardNumber (fst (generateCreditCard ''4111111111111111'' e)) = ''4111111111111111'' \<and>
        cardType (fst (generateCreditCard ''4111111111111111'' e)) = ''Visa''"
    by (simp only: gen_cardNumber gen_cardType b r fst_conv d)
  then show ?thesis
    using appender_fixes_valid_number [of n] by (simp add: digits_only_def)
qed

theorem check_digit_recomputation_idempotent_witness:
  "length ''5500000000000004'' = 16 \<and> digits_only ''5500000000000004'' \<and>
   luhnCheck ''5500000000000004'' \<and>
   generateValidCardNumber (take 15 ''5500000000000004'') = ''5500000000000004''"
proof -
  have h: "length ''5500000000000004'' = 16 \<and> digits_only ''5500000000000004'' \<and>
           luhnCheck ''5500000000000004''"
    by code_simp
  show ?thesis
    using h check_digit_recomputation_idempotent [of "''5500000000000004''"] by blast
qed

subsection \<open>The expiry date\<close>

text \<open>
  Claim C4. For every pattern whose month segment or year segment is absent,
  \<^verbatim>\<open>generateCreditCard\<close> takes both month and year from \<^verbatim>\<open>generateRandomExpiry\<close>, called
  in the environment the card number left: the segment that is there plays no part. A
  pattern that gives only a month loses it.
\<close>

theorem partial_expiry_is_discarded:
  assumes "p_month (parseInputPattern pattern) = None \<or> p_year (parseInputPattern pattern) = None"
  shows "(month (fst (generateCreditCard pattern e)), year (fst (generateCreditCard pattern e))) =
         fst (generateRandomExpiry (snd (resolveCardNumber (bin (parseInputPattern pattern)) e)))"
proof -
  have f: "(truthy (p_month (parseInputPattern pattern)) \<and>
            truthy (p_year (parseInputPattern pattern))) = False"
    using assms by (auto simp: truthy_def)
  show ?thesis
    unfolding gen_expiry by (simp only: resolveExpiry_def f if_False)
qed

theorem partial_expiry_is_discarded_witness:
  "p_month (parseInputPattern ''4111111111111111|12'') = Some ''12'' \<and>
   p_year (parseInputPattern ''4111111111111111|12'') = None \<and>
   (month (fst (generateCreditCard ''4111111111111111|12''
      \<lparr>draws = (\<lambda>i. 7 * i + 3), drawn = 0, clock_year = 2026, clock_month = 10\<rparr>)),
    year (fst (generateCreditCard ''4111111111111111|12''
      \<lparr>draws = (\<lambda>i. 7 * i + 3), drawn = 0, clock_year = 2026, clock_month = 10\<rparr>))) =
   (''11'', ''30'')"
proof -
  let ?e = "\<lparr>draws = (\<lambda>i. 7 * i + 3), drawn = 0, clock_year = 2026, clock_month = 10\<rparr>"
  have m: "p_month (parseInputPattern ''4111111111111111|12'') = Some ''12''"
    by code_simp
  have y: "p_year (parseInputPattern ''4111111111111111|12'') = None"
    by code_simp
  have b: "bin (parseInputPattern ''4111111111111111|12'') = ''4111111111111111''"
    by code_simp
  have w: "\<not> has_wildcard ''4111111111111111''"
    by code_simp
  have t: "targetLength ''4111111111111111'' \<le> length ''4111111111111111''"
    by code_simp
  have r: "fst (generateRandomExpiry ?e) = (''11'', ''30'')"
    by code_simp
  have "fst (generateRandomExpiry
          (snd (resolveCardNumber (bin (parseInputPattern ''4111111111111111|12'')) ?e))) =
        (''11'', ''30'')"
    by (simp only: b resolve_literal [OF w t] snd_conv r)
  then show ?thesis
    using partial_expiry_is_discarded [of "''4111111111111111|12''" ?e, OF disjI2 [OF y]] m y
    by simp
qed

text \<open>
  When the month and year segments are both there and neither holds a character of the
  class the code tests for at lines 212 and 223, which has \<^verbatim>\<open>Q\<close> besides the six
  wildcards, they are used as they are, with no check of range or of being a number:
  the month is only padded with zeros on the left to two characters, and the year is
  only cut to its last two characters when it has four, and padded the same way
  otherwise. A month segment \<^verbatim>\<open>99\<close> comes out as \<^verbatim>\<open>99\<close>.
\<close>

lemma literal_expiry_outside_class:
  assumes m: "p_month (parseInputPattern pattern) = Some m"
      and y: "p_year (parseInputPattern pattern) = Some y"
      and wm: "\<not> has_wildcard m" and wy: "\<not> has_wildcard y"
  shows "month (fst (generateCreditCard pattern e)) = padStart m 2 CHR ''0'' \<and>
         year (fst (generateCreditCard pattern e)) =
           (if length y = 4 then slice_last2 y else padStart y 2 CHR ''0'')"
proof -
  have t: "truthy (p_month (parseInputPattern pattern)) \<and> truthy (p_year (parseInputPattern pattern))"
    using parsed_nonempty(1) [OF m] parsed_nonempty(2) [OF y] m y by (simp add: truthy_def)
  have "fst (resolveExpiry (parseInputPattern pattern) e') =
        (padStart m 2 CHR ''0'', if length y = 4 then slice_last2 y else padStart y 2 CHR ''0'')" for e'
    using t m y wm wy by (simp add: resolveExpiry_def processMonth_def processYear_def)
  then show ?thesis
    using gen_expiry [of pattern e] by simp
qed

lemma literal_expiry_example_99:
  "p_month (parseInputPattern ''4111111111111111|99|2031'') = Some ''99'' \<and>
   p_year (parseInputPattern ''4111111111111111|99|2031'') = Some ''2031'' \<and>
   \<not> has_wildcard ''99'' \<and> \<not> has_wildcard ''2031'' \<and>
   (\<forall>e. month (fst (generateCreditCard ''4111111111111111|99|2031'' e)) = ''99'' \<and>
        year (fst (generateCreditCard ''4111111111111111|99|2031'' e)) = ''31'')"
proof -
  have m: "p_month (parseInputPattern ''4111111111111111|99|2031'') = Some ''99''"
    by code_simp
  have y: "p_year (parseInputPattern ''4111111111111111|99|2031'') = Some ''2031''"
    by code_simp
  have wm: "\<not> has_wildcard ''99''"
    by code_simp
  have wy: "\<not> has_wildcard ''2031''"
    by code_simp
  have p: "padStart ''99'' 2 CHR ''0'' = ''99'' \<and> slice_last2 ''2031'' = ''31''"
    by code_simp
  show ?thesis
    using literal_expiry_outside_class [OF m y wm wy] m y wm wy p by simp
qed

lemma digits_nat_toString: "list_all is_digit (nat_toString n)"
proof (induction n rule: nat_toString.induct)
  case (1 n)
  show ?case
  proof (cases "n < 10")
    case True
    then show ?thesis
      by (subst nat_toString.simps) (simp add: is_digit_digit_char)
  next
    case False
    have "is_digit (digit_char (int (n mod 10)))"
      by (rule is_digit_digit_char) simp_all
    then show ?thesis
      using False 1 by (subst nat_toString.simps) simp
  qed
qed

lemma digits_padStart:
  "list_all is_digit s \<Longrightarrow> list_all is_digit (padStart s n CHR ''0'')"
  by (auto simp: padStart_def list_all_iff is_digit_zero)

text \<open>A month segment with a character of the class is filled and read as a number,
  and redrawn when the number is not one of 1 to 12: what comes out is a string of
  digits.\<close>

lemma processMonth_filled_digits:
  assumes "has_wildcard m"
  shows "list_all is_digit (fst (processMonth m e))"
proof -
  obtain filled e1 where f: "fillWildcards m e = (filled, e1)"
    by (cases "fillWildcards m e")
  show ?thesis
  proof (cases "isNaN (parseInt filled) \<or> num_lt (parseInt filled) (Some 1) \<or>
                num_gt (parseInt filled) (Some 12)")
    case True
    have "list_all is_digit (int_toString (int (fst (random_below 12 e1)) + 1))"
      by (simp add: int_toString_def digits_nat_toString)
    then show ?thesis
      using assms True f
      by (simp add: processMonth_def Let_def split_beta num_toString_def digits_padStart)
  next
    case False
    then obtain k where k: "parseInt filled = Some k" "1 \<le> k"
      by (cases "parseInt filled") (auto simp: isNaN_def num_lt_def)
    have "list_all is_digit (int_toString k)"
      using k(2) by (simp add: int_toString_def digits_nat_toString)
    then show ?thesis
      using assms False f k
      by (simp add: processMonth_def Let_def split_beta num_toString_def digits_padStart)
  qed
qed

text \<open>
  Claim C10. When the month and year segments are both there and neither holds a
  wildcard character, they are used as they are, with no check of range or of being a
  number: the month is only padded with zeros to two characters and the year is only
  cut to its last two digits or padded. The wildcards are the six characters
  \<^verbatim>\<open>* X x ? # _\<close>, but the tests at lines 212 and 223 use the class of line 134, which
  has \<^verbatim>\<open>Q\<close> as well. In the pattern \<^verbatim>\<open>4111111111111111|Q|30\<close> the month segment
  \<^verbatim>\<open>Q\<close> and the year segment \<^verbatim>\<open>30\<close> hold none of the six, yet the month is filled,
  read as a number and redrawn when out of range: it comes out as a string of digits,
  never as the segment padded to \<^verbatim>\<open>0Q\<close>, whatever the random source and the clock.
\<close>

theorem month_segment_Q_is_redrawn:
  "CHR ''Q'' \<notin> set ''*Xx?#_'' \<and>
   p_month (parseInputPattern ''4111111111111111|Q|30'') = Some ''Q'' \<and>
   p_year (parseInputPattern ''4111111111111111|Q|30'') = Some ''30'' \<and>
   digits_only (month (fst (generateCreditCard ''4111111111111111|Q|30'' e))) \<and>
   month (fst (generateCreditCard ''4111111111111111|Q|30'' e)) \<noteq> padStart ''Q'' 2 CHR ''0''"
proof -
  let ?pat = "''4111111111111111|Q|30''"
  let ?e1 = "snd (resolveCardNumber (bin (parseInputPattern ?pat)) e)"
  have m: "p_month (parseInputPattern ?pat) = Some ''Q''"
    by code_simp
  have y: "p_year (parseInputPattern ?pat) = Some ''30''"
    by code_simp
  have w: "has_wildcard ''Q''"
    by code_simp
  have "fst (fst (resolveExpiry (parseInputPattern ?pat) ?e1)) =
        padStart (fst (processMonth ''Q'' ?e1)) 2 CHR ''0''"
    by (simp add: resolveExpiry_def m y truthy_def Let_def split_beta)
  then have mm: "month (fst (generateCreditCard ?pat e)) =
                 padStart (fst (processMonth ''Q'' ?e1)) 2 CHR ''0''"
    using gen_expiry [of ?pat e] by (simp add: prod_eq_iff)
  have d: "list_all is_digit (month (fst (generateCreditCard ?pat e)))"
    unfolding mm by (rule digits_padStart [OF processMonth_filled_digits [OF w]])
  have q: "\<not> list_all is_digit (padStart ''Q'' 2 CHR ''0'')"
    by code_simp
  have ne: "month (fst (generateCreditCard ?pat e)) \<noteq> padStart ''Q'' 2 CHR ''0''"
    using d q by auto
  show ?thesis
    using m y d ne by (simp add: digits_only_def)
qed

subsection \<open>The whole record\<close>

lemma generateRandomExpiry_shape:
  "2 \<le> length (fst (fst (generateRandomExpiry e))) \<and> snd (fst (generateRandomExpiry e)) \<noteq> []"
  by (simp add: generateRandomExpiry_def Let_def split_beta length_padStart
      slice_last2_nonempty int_toString_nonempty)

lemma resolveExpiry_shape:
  "2 \<le> length (fst (fst (resolveExpiry p e))) \<and> snd (fst (resolveExpiry p e)) \<noteq> []"
proof (cases "truthy (p_month p) \<and> truthy (p_year p)")
  case False
  then have f: "(truthy (p_month p) \<and> truthy (p_year p)) = False"
    by simp
  have "resolveExpiry p e = generateRandomExpiry e"
    by (simp only: resolveExpiry_def f if_False)
  then show ?thesis
    using generateRandomExpiry_shape [of e] by simp
next
  case True
  have y: "(if length s = 4 then slice_last2 s else padStart s 2 CHR ''0'') \<noteq> []" for s
    using length_padStart [of 2 s "CHR ''0''"] length_slice_last2_4 [of s] by auto
  show ?thesis
    using True y by (simp add: resolveExpiry_def Let_def split_beta length_padStart)
qed

lemma generateCVV_nonempty: "fst (generateCVV ct e) \<noteq> []"
proof -
  have "length (fst (generateCVV ct e)) = (if ct = ''American Express'' then 4 else 3)"
    by (simp add: generateCVV_def Let_def length_random_digits)
  then show ?thesis by (auto split: if_splits)
qed

lemma resolveCvv_nonempty: "fst (resolveCvv p ct e) \<noteq> []"
proof (cases "truthy (p_cvv p)")
  case False
  then show ?thesis by (simp add: resolveCvv_def generateCVV_nonempty)
next
  case True
  then obtain v where v: "p_cvv p = Some v" "v \<noteq> []"
    by (auto simp: truthy_def split: option.splits)
  show ?thesis
  proof (cases "has_wildcard v")
    case False
    then show ?thesis using True v by (simp add: resolveCvv_def)
  next
    case w: True
    have "fst (fillWildcards v e) \<noteq> []"
      using length_fillWildcards [of v e] v(2) by auto
    then show ?thesis
      using True v w by (simp add: resolveCvv_def Let_def split_beta generateCVV_nonempty)
  qed
qed

text \<open>
  Claim C9. For every input string, also one with characters that are neither digits
  nor wildcards nor separators, \<^verbatim>\<open>generateCreditCard\<close> returns a record with its six
  fields filled. No step of lines 172 to 292 can throw on a string (the steps are
  \<^verbatim>\<open>replace\<close>, \<^verbatim>\<open>split\<close>, \<^verbatim>\<open>filter\<close>, \<^verbatim>\<open>startsWith\<close>, \<^verbatim>\<open>substring\<close>, \<^verbatim>\<open>padEnd\<close>, \<^verbatim>\<open>padStart\<close>,
  \<^verbatim>\<open>slice\<close>, \<^verbatim>\<open>parseInt\<close>, \<^verbatim>\<open>toString\<close>, arithmetic and comparisons, with \<^verbatim>\<open>NaN\<close> where a
  number cannot be read), and its loops are bounded by a length, so the model is a total
  function with no error result. The record it returns has a card number of at least 16
  characters, a month of at least two, a year, a cvv and a card type that are not empty,
  and \<^verbatim>\<open>formatted\<close> joins the first four with \<^verbatim>\<open>|\<close>.
\<close>

theorem generateCreditCard_returns_complete_record:
  "16 \<le> length (cardNumber (fst (generateCreditCard pattern e))) \<and>
   2 \<le> length (month (fst (generateCreditCard pattern e))) \<and>
   year (fst (generateCreditCard pattern e)) \<noteq> [] \<and>
   cvv (fst (generateCreditCard pattern e)) \<noteq> [] \<and>
   cardType (fst (generateCreditCard pattern e)) \<noteq> [] \<and>
   formatted (fst (generateCreditCard pattern e)) =
     cardNumber (fst (generateCreditCard pattern e)) @ ''|'' @
     month (fst (generateCreditCard pattern e)) @ ''|'' @
     year (fst (generateCreditCard pattern e)) @ ''|'' @
     cvv (fst (generateCreditCard pattern e))"
proof -
  let ?p = "parseInputPattern pattern"
  let ?e1 = "snd (resolveCardNumber (bin ?p) e)"
  have my: "month (fst (generateCreditCard pattern e)) = fst (fst (resolveExpiry ?p ?e1))"
           "year (fst (generateCreditCard pattern e)) = snd (fst (resolveExpiry ?p ?e1))"
    using gen_expiry [of pattern e] by (simp_all add: prod_eq_iff)
  show ?thesis
    using resolveExpiry_shape [of ?p ?e1]
    by (simp add: my gen_cardNumber gen_cardType gen_cvv gen_formatted
        length_resolveCardNumber resolveCvv_nonempty detectCardType_nonempty)
qed

section \<open>Batch generation\<close>

lemma multiple_loop_invocations:
  "multiple_loop gen pattern i n (b, e) =
   (b\<lparr>cards := cards b @ returned (fst (invocations gen pattern n e)),
      logged := logged b @ thrown i (fst (invocations gen pattern n e))\<rparr>,
    snd (invocations gen pattern n e))"
proof (induction n arbitrary: i b e)
  case 0
  show ?case by simp
next
  case (Suc n)
  show ?case
  proof (cases "gen pattern e")
    case (Pair r e1)
    then show ?thesis
      by (cases r) (simp_all add: Suc.IH split_beta)
  qed
qed

lemma length_invocations: "length (fst (invocations gen pattern n e)) = n"
  by (induction n arbitrary: e) (simp_all add: split_beta)

lemma returned_thrown: "length (returned rs) + length (thrown i rs) = length rs"
  by (induction i rs rule: thrown.induct) simp_all

lemma length_returned: "length (returned rs) \<le> length rs"
  using returned_thrown [of rs 0] by simp

text \<open>With \<^verbatim>\<open>generateCreditCard\<close> itself as the generator no call throws: the batch
  has \<open>count\<close> cards and nothing is logged.\<close>

lemma cardGenerator_never_throws:
  "length (returned (fst (invocations cardGenerator pattern n e))) = n \<and>
   thrown i (fst (invocations cardGenerator pattern n e)) = []"
  by (induction n arbitrary: e i) (simp_all add: cardGenerator_def split_beta Let_def)

lemma generateMultipleCards_all:
  "length (cards (fst (generateMultipleCards pattern count e))) = count \<and>
   logged (fst (generateMultipleCards pattern count e)) = []"
  using cardGenerator_never_throws [of pattern count e 0]
  by (simp add: generateMultipleCards_def generateMultipleCardsWith_def
      multiple_loop_invocations)

text \<open>
  Claim C8. \<^verbatim>\<open>generateMultipleCards(pattern, count)\<close> calls the generator exactly
  \<open>count\<close> times and returns at most \<open>count\<close> records. A value thrown by one call is
  caught and logged and that record is skipped, while the records of the other calls
  are returned: for any generator, throwing or not, the cards of the batch are the
  cards returned by \<open>count\<close> calls in a row, in order, the log holds the thrown values
  with the numbers of their calls, and the environment left is the one after the last
  call. The batch of the engine's own generator has at most \<open>count\<close> records too.
\<close>

theorem generateMultipleCards_isolates_failures:
  "length (fst (invocations gen pattern count e)) = count \<and>
   cards (fst (generateMultipleCardsWith gen pattern count e)) =
     returned (fst (invocations gen pattern count e)) \<and>
   logged (fst (generateMultipleCardsWith gen pattern count e)) =
     thrown 0 (fst (invocations gen pattern count e)) \<and>
   snd (generateMultipleCardsWith gen pattern count e) = snd (invocations gen pattern count e) \<and>
   length (cards (fst (generateMultipleCardsWith gen pattern count e))) \<le> count \<and>
   length (cards (fst (generateMultipleCards pattern count e))) \<le> count"
  using length_returned [of "fst (invocations gen pattern count e)"]
        generateMultipleCards_all [of pattern count e]
  by (simp add: generateMultipleCardsWith_def multiple_loop_invocations length_invocations)

text \<open>A generator that throws at its third call and returns a fixed card at the
  others: a batch of five has the four cards, and the log has the third call.\<close>

theorem generateMultipleCards_isolates_failures_witness:
  "(let c = \<lparr>cardNumber = ''4111111111111111'', month = ''12'', year = ''30'', cvv = ''123'',
             cardType = ''Visa'', formatted = ''4111111111111111|12|30|123''\<rparr>;
        gen = (\<lambda>p e. ((if drawn e = 2 then Inl ''thrown'' else Inr c),
                       e\<lparr>drawn := Suc (drawn e)\<rparr>));
        b = fst (generateMultipleCardsWith gen ''4111111111111111|12|30|123'' 5
                   \<lparr>draws = (\<lambda>i. i), drawn = 0, clock_year = 2026, clock_month = 10\<rparr>)
    in cards b = [c, c, c, c] \<and> logged b = [(3, ''thrown'')])"
proof -
  let ?c = "\<lparr>cardNumber = ''4111111111111111'', month = ''12'', year = ''30'', cvv = ''123'',
             cardType = ''Visa'', formatted = ''4111111111111111|12|30|123''\<rparr>"
  let ?gen = "\<lambda>(p :: string) e. ((if drawn e = 2 then Inl ''thrown'' else Inr ?c),
                       e\<lparr>drawn := Suc (drawn e)\<rparr>)"
  let ?e0 = "\<lparr>draws = (\<lambda>i. i), drawn = 0, clock_year = 2026, clock_month = 10\<rparr>"
  have five: "(5::nat) = Suc (Suc (Suc (Suc (Suc 0))))"
    by simp
  have inv: "fst (invocations ?gen ''4111111111111111|12|30|123'' 5 ?e0) =
             [Inr ?c, Inr ?c, Inl ''thrown'', Inr ?c, Inr ?c]"
    unfolding five by simp
  show ?thesis
    unfolding Let_def
    using generateMultipleCards_isolates_failures
            [of ?gen "''4111111111111111|12|30|123''" 5 ?e0]
    by (simp add: inv)
qed

end
